theory Spec2Isabelle
  imports Complex_Main "HOL-Library.Word" "HOL-Library.Char_ord"
begin

unbundle bit_operations_syntax

section \<open>The percent-encoder: \<open>url_encode\<close>\<close>

text \<open>
  A \<open>std::string\<close> is a sequence of bytes; it is modelled as a \<open>string\<close>, a list of
  8-bit \<open>char\<close>s, and \<open>of_char\<close> reads a byte as the number
  \<open>static_cast<unsigned char>(ch)\<close>.

  \<open>isalnum\<close> is the C library's classification, and it depends on the current locale of
  the process. In every locale the ASCII digits and letters are alphanumeric and no other
  ASCII character is; which of the bytes from 128 on are alphanumeric is the locale's
  choice. A \<open>ctype\<close> is that choice: the predicate that tells the locale's own
  alphanumeric bytes.
\<close>

type_synonym ctype = "char \<Rightarrow> bool"

definition isalnum :: "ctype \<Rightarrow> char \<Rightarrow> bool" where
  "isalnum loc ch \<longleftrightarrow>
     (let c = (of_char ch :: nat) in
        (48 \<le> c \<and> c \<le> 57) \<or> (65 \<le> c \<and> c \<le> 90) \<or> (97 \<le> c \<and> c \<le> 122) \<or>
        (128 \<le> c \<and> loc ch))"

text \<open>The lambda \<open>no_encode\<close> of \<open>url_encode\<close>.\<close>

definition no_encode :: "ctype \<Rightarrow> char \<Rightarrow> bool" where
  "no_encode loc ch \<longleftrightarrow>
     isalnum loc ch \<or> ch = CHR ''-'' \<or> ch = CHR ''.'' \<or> ch = CHR ''_'' \<or> ch = CHR ''~''"

text \<open>
  The first loop of \<open>url_encode\<close>: \<open>len\<close> starts at \<open>src.length()\<close> and grows by two for
  every byte that is to be escaped. The result is only passed to \<open>reserve\<close>.
\<close>

fun encoded_length :: "ctype \<Rightarrow> string \<Rightarrow> nat \<Rightarrow> nat" where
  "encoded_length loc [] len = len"
| "encoded_length loc (ch # src) len =
     encoded_length loc src (if \<not> no_encode loc ch then len + 2 else len)"

text \<open>
  \<open>hex += hex <= 9 ? '0' : 'a' - 10; encoded.push_back(static_cast<char>(hex))\<close>:
  the character pushed for the nibble \<open>hex\<close>.
\<close>

definition hex_digit :: "nat \<Rightarrow> char" where
  "hex_digit hex =
     char_of (hex + (if hex \<le> 9 then of_char CHR ''0'' else of_char CHR ''a'' - 10))"

text \<open>
  The second loop: \<open>encoded\<close> is the string built so far. The high nibble is
  \<open>static_cast<unsigned char>(ch) >> 4\<close>, the low one
  \<open>static_cast<unsigned char>(ch) & 0x0F\<close>.
\<close>

fun encode_loop :: "ctype \<Rightarrow> string \<Rightarrow> string \<Rightarrow> string" where
  "encode_loop loc [] encoded = encoded"
| "encode_loop loc (ch # src) encoded =
     encode_loop loc src
       (if no_encode loc ch then encoded @ [ch]
        else encoded @ [CHR ''%'',
                        hex_digit (drop_bit 4 (of_char ch :: nat)),
                        hex_digit ((of_char ch :: nat) AND 15)])"

definition url_encode :: "ctype \<Rightarrow> string \<Rightarrow> string" where
  "url_encode loc src = encode_loop loc src []"

definition format_user_pass_string :: "ctype \<Rightarrow> string \<Rightarrow> string \<Rightarrow> bool \<Rightarrow> string" where
  "format_user_pass_string loc user passwd encode =
     (if encode then url_encode loc user @ '':'' @ url_encode loc passwd
      else user @ '':'' @ passwd)"

text \<open>
  Two locales: the "C" locale, which has no alphanumeric byte of its own, and a locale in
  which the byte \<open>0xE9\<close> is a letter, as it is in the locales of ISO 8859-1 (\<open>e\<close> with an
  acute accent).
\<close>

definition c_locale :: ctype where
  "c_locale ch \<longleftrightarrow> False"

definition e_acute_locale :: ctype where
  "e_acute_locale ch \<longleftrightarrow> ch = CHR 0xE9"

subsection \<open>The encoder as the specification words it\<close>

text \<open>
  The unreserved set \<open>A-Z\<close>, \<open>a-z\<close>, \<open>0-9\<close>, \<open>-\<close>, \<open>.\<close>, \<open>_\<close>, \<open>~\<close>, the lower-case
  hexadecimal digits, and the three-byte escape of a byte. These follow the specification,
  and are compared with \<open>url_encode\<close> below.
\<close>

definition unreserved :: "char \<Rightarrow> bool" where
  "unreserved b \<longleftrightarrow>
     (CHR ''A'' \<le> b \<and> b \<le> CHR ''Z'') \<or> (CHR ''a'' \<le> b \<and> b \<le> CHR ''z'') \<or>
     (CHR ''0'' \<le> b \<and> b \<le> CHR ''9'') \<or>
     b = CHR ''-'' \<or> b = CHR ''.'' \<or> b = CHR ''_'' \<or> b = CHR ''~''"

definition lower_hex :: "nat \<Rightarrow> char" where
  "lower_hex d = ''0123456789abcdef'' ! d"

definition percent_triple :: "char \<Rightarrow> string" where
  "percent_triple b =
     [CHR ''%'', lower_hex ((of_char b :: nat) div 16), lower_hex ((of_char b :: nat) mod 16)]"

definition encode_byte :: "char \<Rightarrow> string" where
  "encode_byte b = (if unreserved b then [b] else percent_triple b)"

text \<open>
  The same with the set of bytes that are kept left open: what \<open>url_encode\<close> does for one
  byte, whatever the locale, is \<open>encode_with (no_encode loc)\<close>.
\<close>

definition encode_with :: "(char \<Rightarrow> bool) \<Rightarrow> char \<Rightarrow> string" where
  "encode_with keep b = (if keep b then [b] else percent_triple b)"

section \<open>C++ \<open>float\<close>\<close>

text \<open>
  \<open>throttle\<close> and \<open>maxspeed\<close> are C++ \<open>float\<close>s, IEEE 754 binary32 values: a finite value
  is the rational number it denotes; the two zeros are one value, since \<open>init_remote\<close> only
  compares, multiplies and converts and never tells them apart. Arithmetic rounds to
  nearest, ties to even, to 24 significant bits.
\<close>

datatype cfloat = Finite rat | PlusInf | MinusInf | NaN

text \<open>The number of binary digits of a positive integer.\<close>

function bit_length :: "int \<Rightarrow> nat" where
  "bit_length n = (if n \<le> 0 then 0 else Suc (bit_length (n div 2)))"
  by pat_completeness auto
termination
  by (relation "measure nat") auto

declare bit_length.simps [simp del]

definition round_half_even :: "rat \<Rightarrow> int" where
  "round_half_even q =
     (let f = \<lfloor>q\<rfloor>; r = q - of_int f in
        if r < 1 / 2 then f
        else if 1 / 2 < r then f + 1
        else if even f then f else f + 1)"

text \<open>
  The distance between neighbouring binary32 values at magnitude \<open>a\<close>: \<open>2 ^ (e - 23)\<close> for
  \<open>2 ^ e \<le> a < 2 ^ (e + 1)\<close>, and \<open>2 ^ -149\<close> below \<open>2 ^ -125\<close> (the subnormals and the
  first binade of normal numbers: the subtraction on natural numbers stops at 0).
\<close>

definition float_ulp :: "rat \<Rightarrow> rat" where
  "float_ulp a = 2 ^ (bit_length \<lfloor>a * 2 ^ 149\<rfloor> - 24) / 2 ^ 149"

text \<open>Rounding a rational to binary32; a result of magnitude \<open>2 ^ 128\<close> overflows.\<close>

definition round_float :: "rat \<Rightarrow> cfloat" where
  "round_float q =
     (let a = \<bar>q\<bar>; u = float_ulp a; m = of_int (round_half_even (a / u)) * u in
        if 2 ^ 128 \<le> m then (if 0 \<le> q then PlusInf else MinusInf)
        else Finite (if 0 \<le> q then m else - m))"

text \<open>The comparisons \<open><\<close>, \<open>==\<close> and \<open><=\<close>: every comparison with a NaN is false.\<close>

fun float_less :: "cfloat \<Rightarrow> cfloat \<Rightarrow> bool" where
  "float_less NaN y = False"
| "float_less x NaN = False"
| "float_less (Finite a) (Finite b) = (a < b)"
| "float_less PlusInf y = False"
| "float_less x MinusInf = False"
| "float_less x PlusInf = True"
| "float_less MinusInf y = True"

fun float_eq :: "cfloat \<Rightarrow> cfloat \<Rightarrow> bool" where
  "float_eq NaN y = False"
| "float_eq x NaN = False"
| "float_eq x y = (x = y)"

definition float_le :: "cfloat \<Rightarrow> cfloat \<Rightarrow> bool" where
  "float_le x y \<longleftrightarrow> float_less x y \<or> float_eq x y"

fun float_mul :: "cfloat \<Rightarrow> cfloat \<Rightarrow> cfloat" where
  "float_mul NaN y = NaN"
| "float_mul x NaN = NaN"
| "float_mul (Finite a) (Finite b) = round_float (a * b)"
| "float_mul (Finite a) PlusInf = (if a = 0 then NaN else if 0 < a then PlusInf else MinusInf)"
| "float_mul (Finite a) MinusInf = (if a = 0 then NaN else if 0 < a then MinusInf else PlusInf)"
| "float_mul PlusInf (Finite b) = (if b = 0 then NaN else if 0 < b then PlusInf else MinusInf)"
| "float_mul MinusInf (Finite b) = (if b = 0 then NaN else if 0 < b then MinusInf else PlusInf)"
| "float_mul PlusInf PlusInf = PlusInf"
| "float_mul PlusInf MinusInf = MinusInf"
| "float_mul MinusInf PlusInf = MinusInf"
| "float_mul MinusInf MinusInf = PlusInf"

text \<open>\<open>static_cast<float>(n)\<close> for an unsigned integer \<open>n\<close>.\<close>

definition float_of_nat :: "nat \<Rightarrow> cfloat" where
  "float_of_nat n = round_float (of_nat n)"

text \<open>
  \<open>static_cast<int64_t>(x)\<close> truncates toward zero. The conversion is defined when
  \<open>x\<close> is finite and the truncated value fits: \<open>truncated x\<close> is that value.
\<close>

fun truncated :: "cfloat \<Rightarrow> int option" where
  "truncated (Finite q) =
     (let t = (if 0 \<le> q then \<lfloor>q\<rfloor> else \<lceil>q\<rceil>) in
        if - (2 ^ 63) \<le> t \<and> t < 2 ^ 63 then Some t else None)"
| "truncated x = None"

text \<open>
  For every other \<open>x\<close> C++ leaves the conversion undefined, and \<open>init_remote\<close> converts
  without a check: the compiled conversion then yields a value that depends on the
  platform. That value is a parameter, the \<open>platform\<close>. On x86-64 the conversion
  instruction gives \<open>INT64_MIN\<close> for every such \<open>x\<close>.
\<close>

type_synonym platform = "cfloat \<Rightarrow> int"

definition float_to_int64 :: "platform \<Rightarrow> cfloat \<Rightarrow> int" where
  "float_to_int64 indefinite x = (case truncated x of Some t \<Rightarrow> t | None \<Rightarrow> indefinite x)"

definition x86_64 :: platform where
  "x86_64 x = - (2 ^ 63)"

section \<open>The engine session and \<open>set_opt\<close>\<close>

datatype LrHandleOption =
    LRO_USERAGENT | LRO_LOWSPEEDLIMIT | LRO_MAXSPEED | LRO_CONNECTTIMEOUT | LRO_LOWSPEEDTIME
  | LRO_IPRESOLVE | LRO_USERPWD | LRO_SSLCACERT | LRO_SSLCLIENTCERT | LRO_SSLCLIENTKEY
  | LRO_SSLVERIFYHOST | LRO_SSLVERIFYPEER | LRO_PROXY | LRO_PROXYAUTHMETHODS
  | LRO_PROXYUSERPWD | LRO_PROXY_SSLCACERT | LRO_PROXY_SSLCLIENTCERT
  | LRO_PROXY_SSLCLIENTKEY | LRO_PROXY_SSLVERIFYHOST | LRO_PROXY_SSLVERIFYPEER

datatype LrIpResolveType = LR_IPRESOLVE_V4 | LR_IPRESOLVE_V6

datatype LrAuth =
    LR_AUTH_NONE | LR_AUTH_BASIC | LR_AUTH_DIGEST | LR_AUTH_NEGOTIATE | LR_AUTH_NTLM
  | LR_AUTH_DIGEST_IE | LR_AUTH_NTLM_WB | LR_AUTH_ANY

text \<open>
  The value passed with an option: a C string (\<open>const char *\<close>), an integer (\<open>long\<close> or
  \<open>int64_t\<close>), an IP resolve mode, or a set of authentication methods.
\<close>

datatype opt_value = Str string | Num int | IpResolve LrIpResolveType | Auth LrAuth

text \<open>
  \<open>c_str()\<close> hands the engine a pointer to the bytes of the string and a terminating NUL:
  what the engine reads as a C string ends before the first NUL byte.
\<close>

definition c_str :: "string \<Rightarrow> string" where
  "c_str s = takeWhile (\<lambda>ch. ch \<noteq> CHR 0x00) s"

text \<open>
  The state of an engine session, as far as \<open>init_remote\<close> is concerned, is the list of
  the options it has received, oldest first. The engine itself (\<open>lr_handle_setopt\<close>) is not
  part of this repository: it is a parameter that tells, for a session, an option and a
  value, whether the engine accepts the option.
\<close>

type_synonym session = "(LrHandleOption \<times> opt_value) list"

type_synonym engine = "session \<Rightarrow> LrHandleOption \<Rightarrow> opt_value \<Rightarrow> bool"

text \<open>
  The exceptions of \<open>init_remote\<close>: \<open>LibrepoError\<close> thrown by \<open>set_opt\<close> and
  \<open>RepoDownloadError\<close> thrown by the cross-field check. An outcome carries the session as it
  is then.
\<close>

datatype exn = LibrepoError | RepoDownloadError

datatype outcome = Returned session | Threw exn session

type_synonym stmt = "session \<Rightarrow> outcome"

text \<open>
  Modelled from the spec: \<open>LibrepoHandle::set_opt\<close> is declared in \<open>librepo.hpp\<close>, which is
  not among the sources. It forwards to the engine's option setter and fails with
  \<open>LibrepoError\<close> when the engine reports an error.
\<close>

definition set_opt :: "engine \<Rightarrow> LrHandleOption \<Rightarrow> opt_value \<Rightarrow> stmt" where
  "set_opt lr_handle_setopt opt val h =
     (if lr_handle_setopt h opt val then Returned (h @ [(opt, val)])
      else Threw LibrepoError h)"

text \<open>Statements in sequence: an exception ends the sequence.\<close>

fun run :: "stmt list \<Rightarrow> stmt" where
  "run [] h = Returned h"
| "run (s # ss) h = (case s h of Returned h' \<Rightarrow> run ss h' | Threw e h' \<Rightarrow> Threw e h')"

definition if_then_else :: "bool \<Rightarrow> stmt list \<Rightarrow> stmt list \<Rightarrow> stmt" where
  "if_then_else b body1 body2 h = (if b then run body1 h else run body2 h)"

definition if_then :: "bool \<Rightarrow> stmt list \<Rightarrow> stmt" where
  "if_then b body = if_then_else b body []"

definition throw_if :: "bool \<Rightarrow> exn \<Rightarrow> stmt" where
  "throw_if b e h = (if b then Threw e h else Returned h)"

section \<open>The remote configurator: \<open>init_remote\<close>\<close>

text \<open>
  Modelled from the spec: the configuration classes (\<open>ConfigMain\<close>, \<open>ConfigRepo\<close>) are not
  among the sources. \<open>init_remote\<close> reads the fields below through \<open>get_value()\<close>; the
  specification gives \<open>minrate\<close> and \<open>bandwidth\<close> as non-negative integers, \<open>throttle\<close> as a
  float, \<open>timeout\<close> as an integer, and \<open>proxy\<close> and \<open>proxy_username\<close> as optional strings,
  for which \<open>empty()\<close> tells that the option is not set (\<open>None\<close>).
\<close>

record config =
  user_agent :: string
  minrate :: nat
  throttle :: cfloat
  bandwidth :: nat
  timeout :: int
  ip_resolve :: string
  username :: string
  password :: string
  sslcacert :: string
  sslclientcert :: string
  sslclientkey :: string
  sslverify :: bool
  proxy :: "string option"
  proxy_auth_method :: string
  proxy_username :: "string option"
  proxy_password :: string
  proxy_sslcacert :: string
  proxy_sslclientcert :: string
  proxy_sslclientkey :: string
  proxy_sslverify :: bool

definition PROXYAUTHMETHODS :: "(string \<times> LrAuth) list" where
  "PROXYAUTHMETHODS =
     [(''none'', LR_AUTH_NONE),
      (''basic'', LR_AUTH_BASIC),
      (''digest'', LR_AUTH_DIGEST),
      (''negotiate'', LR_AUTH_NEGOTIATE),
      (''ntlm'', LR_AUTH_NTLM),
      (''digest_ie'', LR_AUTH_DIGEST_IE),
      (''ntlm_wb'', LR_AUTH_NTLM_WB),
      (''any'', LR_AUTH_ANY)]"

text \<open>
  The loop over \<open>PROXYAUTHMETHODS\<close>: the first entry whose name equals the string gives the
  code (\<open>break\<close>); without one the initial value stays.
\<close>

fun find_auth :: "(string \<times> LrAuth) list \<Rightarrow> string \<Rightarrow> LrAuth \<Rightarrow> LrAuth" where
  "find_auth [] str method = method"
| "find_auth ((name, code) # auths) str method =
     (if str = name then code else find_auth auths str method)"

text \<open>
  \<open>auto maxspeed = config.throttle().get_value();
  if (maxspeed > 0 && maxspeed <= 1) maxspeed *= static_cast<float>(config.bandwidth().get_value());\<close>
\<close>

definition compute_maxspeed :: "config \<Rightarrow> cfloat" where
  "compute_maxspeed config =
     (let maxspeed = throttle config in
        if float_less (Finite 0) maxspeed \<and> float_le maxspeed (Finite 1)
        then float_mul maxspeed (float_of_nat (bandwidth config))
        else maxspeed)"

text \<open>\<open>b ? 1L : 0L\<close>\<close>

definition bool_long :: "bool \<Rightarrow> int" where
  "bool_long b = (if b then 1 else 0)"

text \<open>
  The template \<open>init_remote\<close>, statement by statement. The values read from the
  configuration are bound first: reading them has no effect on the session. Besides the
  configuration and the handle, a run depends on the locale of the process, on the
  platform and on the engine.
\<close>

definition init_remote :: "ctype \<Rightarrow> platform \<Rightarrow> engine \<Rightarrow> config \<Rightarrow> stmt" where
  "init_remote loc plat eng config =
     (let minrate = minrate config;
          maxspeed = compute_maxspeed config;
          timeout = timeout config;
          ip_resolve = ip_resolve config;
          userpwd = username config;
          sslverify = bool_long (sslverify config);
          proxy_auth_method = find_auth PROXYAUTHMETHODS (proxy_auth_method config) LR_AUTH_ANY;
          proxy_sslverify = bool_long (proxy_sslverify config)
      in run
       [set_opt eng LRO_USERAGENT (Str (c_str (user_agent config))),
        throw_if (\<not> float_eq maxspeed (Finite 0) \<and> float_less maxspeed (float_of_nat minrate))
          RepoDownloadError,
        set_opt eng LRO_LOWSPEEDLIMIT (Num (int minrate)),
        set_opt eng LRO_MAXSPEED (Num (float_to_int64 plat maxspeed)),
        if_then (0 < timeout)
          [set_opt eng LRO_CONNECTTIMEOUT (Num timeout),
           set_opt eng LRO_LOWSPEEDTIME (Num timeout)],
        if_then_else (ip_resolve = ''ipv4'')
          [set_opt eng LRO_IPRESOLVE (IpResolve LR_IPRESOLVE_V4)]
          [if_then (ip_resolve = ''ipv6'')
             [set_opt eng LRO_IPRESOLVE (IpResolve LR_IPRESOLVE_V6)]],
        if_then (userpwd \<noteq> [])
          [set_opt eng LRO_USERPWD
             (Str (c_str (format_user_pass_string loc userpwd (password config) False)))],
        if_then (sslcacert config \<noteq> [])
          [set_opt eng LRO_SSLCACERT (Str (c_str (sslcacert config)))],
        if_then (sslclientcert config \<noteq> [])
          [set_opt eng LRO_SSLCLIENTCERT (Str (c_str (sslclientcert config)))],
        if_then (sslclientkey config \<noteq> [])
          [set_opt eng LRO_SSLCLIENTKEY (Str (c_str (sslclientkey config)))],
        set_opt eng LRO_SSLVERIFYHOST (Num sslverify),
        set_opt eng LRO_SSLVERIFYPEER (Num sslverify),
        (case proxy config of
           None \<Rightarrow> run []
         | Some p \<Rightarrow> if_then (p \<noteq> []) [set_opt eng LRO_PROXY (Str (c_str p))]),
        set_opt eng LRO_PROXYAUTHMETHODS (Auth proxy_auth_method),
        (case proxy_username config of
           None \<Rightarrow> run []
         | Some userpwd \<Rightarrow>
             if_then (userpwd \<noteq> [])
               [set_opt eng LRO_PROXYUSERPWD
                  (Str (c_str (format_user_pass_string loc userpwd (proxy_password config)
                                 True)))]),
        if_then (proxy_sslcacert config \<noteq> [])
          [set_opt eng LRO_PROXY_SSLCACERT (Str (c_str (proxy_sslcacert config)))],
        if_then (proxy_sslclientcert config \<noteq> [])
          [set_opt eng LRO_PROXY_SSLCLIENTCERT (Str (c_str (proxy_sslclientcert config)))],
        if_then (proxy_sslclientkey config \<noteq> [])
          [set_opt eng LRO_PROXY_SSLCLIENTKEY (Str (c_str (proxy_sslclientkey config)))],
        set_opt eng LRO_PROXY_SSLVERIFYHOST (Num proxy_sslverify),
        set_opt eng LRO_PROXY_SSLVERIFYPEER (Num proxy_sslverify)])"

section \<open>The resource wrappers: move assignment\<close>

text \<open>
  A wrapper object lives at an address and holds one pointer, \<open>LibrepoResult::result\<close> or
  \<open>LibrepoHandle::handle\<close> (\<open>None\<close> is \<open>nullptr\<close>). The memory records the pointer
  held at each address and the arguments of the calls of the engine's free functions, in
  order. \<open>this != &other\<close> compares the two addresses.
\<close>

type_synonym address = nat

type_synonym pointer = nat

record memory =
  result_at :: "address \<Rightarrow> pointer option"
  handle_at :: "address \<Rightarrow> pointer option"
  lr_result_free_calls :: "pointer option list"
  lr_handle_free_calls :: "pointer option list"

definition lr_result_free :: "pointer option \<Rightarrow> memory \<Rightarrow> memory" where
  "lr_result_free p m = m\<lparr>lr_result_free_calls := lr_result_free_calls m @ [p]\<rparr>"

definition lr_handle_free :: "pointer option \<Rightarrow> memory \<Rightarrow> memory" where
  "lr_handle_free p m = m\<lparr>lr_handle_free_calls := lr_handle_free_calls m @ [p]\<rparr>"

text \<open>\<open>LibrepoResult::operator=(LibrepoResult && other)\<close>, called on the object at \<open>self\<close>.\<close>

definition LibrepoResult_move_assign :: "address \<Rightarrow> address \<Rightarrow> memory \<Rightarrow> memory" where
  "LibrepoResult_move_assign self other m =
     (if self \<noteq> other then
        let m1 = lr_result_free (result_at m self) m;
            m2 = m1\<lparr>result_at := (result_at m1)(self := result_at m1 other)\<rparr>;
            m3 = m2\<lparr>result_at := (result_at m2)(other := None)\<rparr>
        in m3
      else m)"

text \<open>\<open>LibrepoHandle::operator=(LibrepoHandle && other)\<close>, called on the object at \<open>self\<close>.\<close>

definition LibrepoHandle_move_assign :: "address \<Rightarrow> address \<Rightarrow> memory \<Rightarrow> memory" where
  "LibrepoHandle_move_assign self other m =
     (if self \<noteq> other then
        let m1 = lr_handle_free (handle_at m self) m;
            m2 = m1\<lparr>handle_at := (handle_at m1)(self := handle_at m1 other)\<rparr>;
            m3 = m2\<lparr>handle_at := (handle_at m2)(other := None)\<rparr>
        in m3
      else m)"

section \<open>Observing a run of \<open>init_remote\<close>\<close>

text \<open>The values a session has received for one option, in the order of the calls.\<close>

definition option_values :: "LrHandleOption \<Rightarrow> session \<Rightarrow> opt_value list" where
  "option_values opt h = map snd (filter (\<lambda>(opt', val). opt' = opt) h)"




definition completes :: "stmt \<Rightarrow> session \<Rightarrow> bool" where
  "completes s w \<longleftrightarrow> (\<forall>h. s h = Returned (h @ w))"

definition throws_only :: "stmt \<Rightarrow> exn set \<Rightarrow> bool" where
  "throws_only s E \<longleftrightarrow> (\<forall>h e h'. s h = Threw e h' \<longrightarrow> e \<in> E)"

text \<open>
  What the statements of \<open>init_remote\<close> append to the session when they all return, one
  list for each statement. That this is what the code writes is lemma
  \<open>init_remote_Returned\<close>.
\<close>

definition completed_options :: "ctype \<Rightarrow> platform \<Rightarrow> config \<Rightarrow> session list" where
  "completed_options loc plat config =
     [[(LRO_USERAGENT, Str (c_str (user_agent config)))],
      [],
      [(LRO_LOWSPEEDLIMIT, Num (int (minrate config)))],
      [(LRO_MAXSPEED, Num (float_to_int64 plat (compute_maxspeed config)))],
      (if 0 < timeout config
       then [(LRO_CONNECTTIMEOUT, Num (timeout config))] @
            [(LRO_LOWSPEEDTIME, Num (timeout config))]
       else []),
      (if ip_resolve config = ''ipv4'' then [(LRO_IPRESOLVE, IpResolve LR_IPRESOLVE_V4)]
       else if ip_resolve config = ''ipv6'' then [(LRO_IPRESOLVE, IpResolve LR_IPRESOLVE_V6)]
       else []),
      (if username config \<noteq> []
       then [(LRO_USERPWD, Str (c_str (username config @ '':'' @ password config)))] else []),
      (if sslcacert config \<noteq> [] then [(LRO_SSLCACERT, Str (c_str (sslcacert config)))] else []),
      (if sslclientcert config \<noteq> []
       then [(LRO_SSLCLIENTCERT, Str (c_str (sslclientcert config)))] else []),
      (if sslclientkey config \<noteq> []
       then [(LRO_SSLCLIENTKEY, Str (c_str (sslclientkey config)))] else []),
      [(LRO_SSLVERIFYHOST, Num (bool_long (sslverify config)))],
      [(LRO_SSLVERIFYPEER, Num (bool_long (sslverify config)))],
      (case proxy config of None \<Rightarrow> []
       | Some p \<Rightarrow> if p \<noteq> [] then [(LRO_PROXY, Str (c_str p))] else []),
      [(LRO_PROXYAUTHMETHODS,
        Auth (find_auth PROXYAUTHMETHODS (proxy_auth_method config) LR_AUTH_ANY))],
      (case proxy_username config of None \<Rightarrow> []
       | Some u \<Rightarrow>
           if u \<noteq> []
           then [(LRO_PROXYUSERPWD,
                  Str (c_str (url_encode loc u @ '':'' @
                              url_encode loc (proxy_password config))))]
           else []),
      (if proxy_sslcacert config \<noteq> []
       then [(LRO_PROXY_SSLCACERT, Str (c_str (proxy_sslcacert config)))] else []),
      (if proxy_sslclientcert config \<noteq> []
       then [(LRO_PROXY_SSLCLIENTCERT, Str (c_str (proxy_sslclientcert config)))] else []),
      (if proxy_sslclientkey config \<noteq> []
       then [(LRO_PROXY_SSLCLIENTKEY, Str (c_str (proxy_sslclientkey config)))] else []),
      [(LRO_PROXY_SSLVERIFYHOST, Num (bool_long (proxy_sslverify config)))],
      [(LRO_PROXY_SSLVERIFYPEER, Num (bool_long (proxy_sslverify config)))]]"

subsection \<open>Concrete inputs\<close>

text \<open>An engine that accepts every option, and one that rejects every option.\<close>

definition accept_all :: engine where
  "accept_all h opt val = True"

definition reject_all :: engine where
  "reject_all h opt val = False"


text \<open>\<open>minrate = 1000\<close>, \<open>throttle = 2.0\<close>, \<open>bandwidth = 500\<close>: the maximum speed is below the minimum.\<close>

definition rejected_config :: config where
  "rejected_config = \<lparr>user_agent = ''libdnf'', minrate = 1000, throttle = Finite 2,
     bandwidth = 500,
     timeout = 30, ip_resolve = ''whatever'', username = [], password = [],
     sslcacert = [], sslclientcert = [], sslclientkey = [], sslverify = True,
     proxy = None, proxy_auth_method = ''any'',
     proxy_username = None, proxy_password = [],
     proxy_sslcacert = [], proxy_sslclientcert = [], proxy_sslclientkey = [],
     proxy_sslverify = True\<rparr>"

text \<open>\<open>minrate = 1000\<close>, \<open>throttle = 0.5\<close>, \<open>bandwidth = 500\<close>: half the bandwidth is below the minimum.\<close>

definition fraction_config :: config where
  "fraction_config = \<lparr>user_agent = ''libdnf'', minrate = 1000, throttle = Finite (1 / 2),
     bandwidth = 500,
     timeout = 30, ip_resolve = ''whatever'', username = [], password = [],
     sslcacert = [], sslclientcert = [], sslclientkey = [], sslverify = True,
     proxy = None, proxy_auth_method = ''any'',
     proxy_username = None, proxy_password = [],
     proxy_sslcacert = [], proxy_sslclientcert = [], proxy_sslclientkey = [],
     proxy_sslverify = True\<rparr>"


text \<open>
  \<open>minrate = 16777217\<close> (that is \<open>2 ^ 24 + 1\<close>) and \<open>throttle = 16777216.0\<close>: the maximum
  speed is below the minimum by one byte per second.
\<close>

definition rounding_config :: config where
  "rounding_config = \<lparr>user_agent = ''libdnf'', minrate = 16777217, throttle = Finite 16777216,
     bandwidth = 0,
     timeout = 30, ip_resolve = ''whatever'', username = [], password = [],
     sslcacert = [], sslclientcert = [], sslclientkey = [], sslverify = True,
     proxy = None, proxy_auth_method = ''any'',
     proxy_username = None, proxy_password = [],
     proxy_sslcacert = [], proxy_sslclientcert = [], proxy_sslclientkey = [],
     proxy_sslverify = True\<rparr>"


text \<open>
  The sessions that these configurations give in the "C" locale, on x86-64, with an engine
  that accepts all.
\<close>

definition rounding_session :: session where
  "rounding_session =
     [(LRO_USERAGENT, Str ''libdnf''), (LRO_LOWSPEEDLIMIT, Num 16777217),
      (LRO_MAXSPEED, Num 16777216), (LRO_CONNECTTIMEOUT, Num 30), (LRO_LOWSPEEDTIME, Num 30),
      (LRO_SSLVERIFYHOST, Num 1), (LRO_SSLVERIFYPEER, Num 1),
      (LRO_PROXYAUTHMETHODS, Auth LR_AUTH_ANY),
      (LRO_PROXY_SSLVERIFYHOST, Num 1), (LRO_PROXY_SSLVERIFYPEER, Num 1)]"





section \<open>Lemmas about the percent-encoder\<close>

lemma no_encode_c_locale: "no_encode c_locale ch = unreserved ch"
  by (auto simp add: no_encode_def isalnum_def c_locale_def unreserved_def less_eq_char_def
      Let_def)

lemma encode_with_unreserved: "encode_with unreserved = encode_byte"
  by (rule ext) (simp add: encode_with_def encode_byte_def)

lemma percent_encoded: "\<not> no_encode loc CHR ''%''"
  by (simp add: no_encode_def isalnum_def)



lemma of_char_hex_digit:
  "d < 16 \<Longrightarrow> (of_char (hex_digit d) :: nat) = (if d \<le> 9 then d + 48 else d + 87)"
  by (simp add: hex_digit_def)

lemma hex_digit_lower: "d < 16 \<Longrightarrow> hex_digit d = lower_hex d"
proof -
  assume d: "d < 16"
  then have "d \<in> {0,1,2,3,4,5,6,7,8,9,10,11,12,13,14,15}" by (simp, arith)
  then have "(of_char (hex_digit d) :: nat) = of_char (lower_hex d)"
    unfolding of_char_hex_digit [OF d] by (auto simp add: lower_hex_def)
  then show ?thesis by (simp only: of_char_eq_iff)
qed

lemma high_nibble: "drop_bit 4 (of_char ch :: nat) = of_char ch div 16"
  by (simp add: drop_bit_eq_div)

lemma low_nibble: "(of_char ch :: nat) AND 15 = of_char ch mod 16"
proof -
  have "(of_char ch :: nat) AND mask 4 = of_char ch mod 2 ^ 4"
    by (simp only: take_bit_eq_mask [symmetric] take_bit_eq_mod)
  moreover have "mask 4 = (15::nat)" by (simp add: mask_eq_exp_minus_1)
  ultimately show ?thesis by simp
qed

lemma of_char_lt_256: "(of_char ch :: nat) < 256"
  by (cases ch) simp

lemma high_nibble_lt_16: "(of_char ch :: nat) div 16 < 16"
  using of_char_lt_256 [of ch] by arith

lemma encode_loop_concat:
  "encode_loop loc src encoded = encoded @ concat (map (encode_with (no_encode loc)) src)"
proof (induction src arbitrary: encoded)
  case Nil
  show ?case by simp
next
  case (Cons ch src)
  show ?case
    by (simp add: Cons.IH encode_with_def percent_triple_def
        high_nibble low_nibble hex_digit_lower high_nibble_lt_16)
qed

text \<open>In every locale \<open>url_encode\<close> encodes byte by byte.\<close>

lemma url_encode_concat: "url_encode loc s = concat (map (encode_with (no_encode loc)) s)"
  by (simp add: url_encode_def encode_loop_concat)

lemma encoded_length_count:
  "encoded_length loc src len = len + 2 * length (filter (\<lambda>b. \<not> no_encode loc b) src)"
  by (induction src arbitrary: len) simp_all

lemma length_encode_with: "length (encode_with keep b) = (if keep b then 1 else 3)"
  by (simp add: encode_with_def percent_triple_def)

lemma length_url_encode:
  "length (url_encode loc s) =
     length (filter (no_encode loc) s) + 3 * length (filter (\<lambda>b. \<not> no_encode loc b) s)"
  by (induction s) (simp_all add: url_encode_concat length_encode_with)

text \<open>The length that the first loop computes for \<open>reserve\<close> is the length of the result.\<close>

lemma encoded_length_exact: "encoded_length loc s (length s) = length (url_encode loc s)"
proof -
  have "length (filter (no_encode loc) s) + length (filter (\<lambda>b. \<not> no_encode loc b) s)
      = length s"
    by (rule sum_length_filter_compl)
  then show ?thesis by (simp add: encoded_length_count length_url_encode)
qed

lemma url_encode_kept: "\<forall>b \<in> set s. no_encode loc b \<Longrightarrow> url_encode loc s = s"
  by (induction s) (simp_all add: url_encode_concat encode_with_def)

lemma hex_digit_inj: "a < 16 \<Longrightarrow> b < 16 \<Longrightarrow> hex_digit a = hex_digit b \<Longrightarrow> a = b"
proof -
  assume a: "a < 16" and b: "b < 16" and eq: "hex_digit a = hex_digit b"
  from eq have "(of_char (hex_digit a) :: nat) = of_char (hex_digit b)" by simp
  then show "a = b"
    unfolding of_char_hex_digit [OF a] of_char_hex_digit [OF b]
    by (simp split: if_splits)
qed

lemma percent_triple_eq:
  "percent_triple a = [CHR ''%'', hex_digit (of_char a div 16), hex_digit (of_char a mod 16)]"
  by (simp add: percent_triple_def hex_digit_lower high_nibble_lt_16)

lemma percent_triple_inj: "percent_triple a = percent_triple b \<Longrightarrow> a = b"
proof -
  assume "percent_triple a = percent_triple b"
  then have hi: "hex_digit (of_char a div 16) = hex_digit (of_char b div 16)"
    and lo: "hex_digit (of_char a mod 16) = hex_digit (of_char b mod 16)"
    by (simp_all add: percent_triple_eq)
  from hi have "(of_char a :: nat) div 16 = of_char b div 16"
    by (rule hex_digit_inj [OF high_nibble_lt_16 high_nibble_lt_16])
  moreover from lo have "(of_char a :: nat) mod 16 = of_char b mod 16"
    by (rule hex_digit_inj [rotated 2]) simp_all
  ultimately have "(of_char a :: nat) = of_char b"
    by (metis div_mult_mod_eq)
  then show "a = b" by (simp only: of_char_eq_iff)
qed

text \<open>
  The first byte of an encoding tells whether the byte was kept, as long as \<open>%\<close> itself is
  not kept.
\<close>

lemma encode_with_append_inj:
  assumes percent: "\<not> keep CHR ''%''"
    and eq: "encode_with keep a @ xs = encode_with keep b @ ys"
  shows "a = b \<and> xs = ys"
proof (cases "keep a"; cases "keep b")
  assume "keep a" "keep b"
  with eq show ?thesis by (simp add: encode_with_def)
next
  assume "keep a" "\<not> keep b"
  with eq have "a = CHR ''%''" by (simp add: encode_with_def percent_triple_def)
  with \<open>keep a\<close> percent show ?thesis by simp
next
  assume "\<not> keep a" "keep b"
  with eq have "b = CHR ''%''" by (simp add: encode_with_def percent_triple_def)
  with \<open>keep b\<close> percent show ?thesis by simp
next
  assume "\<not> keep a" "\<not> keep b"
  with eq have "percent_triple a @ xs = percent_triple b @ ys" by (simp add: encode_with_def)
  then have "percent_triple a = percent_triple b \<and> xs = ys"
    by (simp add: percent_triple_def)
  then show ?thesis by (simp add: percent_triple_inj)
qed

lemma encode_with_not_Nil: "encode_with keep b \<noteq> []"
  by (simp add: encode_with_def percent_triple_def)

lemma concat_encode_inj:
  assumes percent: "\<not> keep CHR ''%''"
  shows "concat (map (encode_with keep) s1) = concat (map (encode_with keep) s2) \<Longrightarrow> s1 = s2"
proof (induction s1 arbitrary: s2)
  case Nil
  then show ?case by (cases s2) (simp_all add: encode_with_not_Nil)
next
  case (Cons a s1)
  show ?case
  proof (cases s2)
    case Nil
    with Cons.prems show ?thesis by (simp add: encode_with_not_Nil)
  next
    case (Cons b s2')
    with Cons.prems have "encode_with keep a @ concat (map (encode_with keep) s1)
        = encode_with keep b @ concat (map (encode_with keep) s2')" by simp
    with percent
    have "a = b \<and> concat (map (encode_with keep) s1) = concat (map (encode_with keep) s2')"
      by (rule encode_with_append_inj)
    with Cons.IH Cons show ?thesis by simp
  qed
qed






text \<open>
  In the "C" locale \<open>url_encode\<close> is the encoder of the specification: each unreserved byte
  as it is, every other byte as \<open>%\<close> and its two lower-case hexadecimal digits; so the
  output has \<open>count_unreserved s + 3 * count_other s\<close> bytes, and strings of unreserved
  bytes are left as they are.
\<close>

lemma url_encode_c_locale:
  "url_encode c_locale s = concat (map encode_byte s) \<and>
   length (url_encode c_locale s) =
     length (filter unreserved s) + 3 * length (filter (\<lambda>b. \<not> unreserved b) s) \<and>
   ((\<forall>b \<in> set s. unreserved b) \<longrightarrow> url_encode c_locale s = s)"
proof -
  have k: "no_encode c_locale = unreserved"
    by (rule ext) (rule no_encode_c_locale)
  show ?thesis
    using url_encode_concat [of c_locale s] length_url_encode [of c_locale s]
      url_encode_kept [of s c_locale]
    by (simp add: k encode_with_unreserved)
qed

text \<open>
  Claim C3 fails on the code. \<open>url_encode\<close> classifies with \<open>isalnum\<close>, which follows the
  locale: in a locale where the byte \<open>0xE9\<close> is a letter, \<open>url_encode\<close> emits it as it is,
  where the claim (and the comment above the function, which names \<open>a-z\<close>, \<open>A-Z\<close>, \<open>0-9\<close>)
  asks for \<open>%e9\<close>, and the output has one byte where the claim counts three. In the "C"
  locale the same byte is encoded as claimed.
\<close>

theorem url_encode_locale_dependent:
  "\<not> unreserved (CHR 0xE9) \<and>
   concat (map encode_byte [CHR 0xE9]) = ''%e9'' \<and>
   url_encode e_acute_locale [CHR 0xE9] = [CHR 0xE9] \<and>
   length (url_encode e_acute_locale [CHR 0xE9]) = 1 \<and>
   url_encode c_locale [CHR 0xE9] = ''%e9''"
proof -
  have u: "\<not> unreserved (CHR 0xE9)"
    by (simp add: unreserved_def less_eq_char_def)
  have k: "no_encode e_acute_locale (CHR 0xE9)"
    by (simp add: no_encode_def isalnum_def e_acute_locale_def)
  have p: "percent_triple (CHR 0xE9) = ''%e9''"
    by (simp add: percent_triple_def lower_hex_def)
  from u p have e: "concat (map encode_byte [CHR 0xE9]) = ''%e9''"
    by (simp add: encode_byte_def)
  from k have l: "url_encode e_acute_locale [CHR 0xE9] = [CHR 0xE9]"
    by (simp add: url_encode_concat encode_with_def)
  from e have c: "url_encode c_locale [CHR 0xE9] = ''%e9''"
    using url_encode_c_locale [of "[CHR 0xE9]"] by simp
  from u e l c show ?thesis by simp
qed

text \<open>
  Claim C8. The percent-encoder is injective, whatever the locale:
  \<open>url_encode s1 = url_encode s2\<close> implies \<open>s1 = s2\<close>.
\<close>

theorem url_encode_injective: "url_encode loc s1 = url_encode loc s2 \<Longrightarrow> s1 = s2"
  by (rule concat_encode_inj [where keep = "no_encode loc"])
    (simp_all add: url_encode_concat percent_encoded)

theorem url_encode_injective_witness:
  "url_encode c_locale ''a/b'' = url_encode c_locale [CHR ''a'', char_of (47::nat), CHR ''b'']
   \<and> ''a/b'' = [CHR ''a'', char_of (47::nat), CHR ''b'']"
proof -
  have e: "url_encode c_locale ''a/b''
      = url_encode c_locale [CHR ''a'', char_of (47::nat), CHR ''b'']"
    by code_simp
  from e url_encode_injective [OF e] show ?thesis by simp
qed


section \<open>Lemmas about \<open>float\<close>\<close>

lemma bit_length_0: "bit_length 0 = 0"
  by (simp add: bit_length.simps)

lemma bit_length_pos: "0 < n \<Longrightarrow> bit_length n = Suc (bit_length (n div 2))"
  by (subst bit_length.simps) simp

lemma bit_length_double: "0 < n \<Longrightarrow> bit_length (2 * n) = Suc (bit_length n)"
  by (subst bit_length.simps) simp

lemma bit_length_shift: "0 < n \<Longrightarrow> bit_length (n * 2 ^ k) = bit_length n + k"
proof (induction k)
  case 0
  show ?case by simp
next
  case (Suc k)
  then have "0 < n * 2 ^ k" by simp
  then have "bit_length (2 * (n * 2 ^ k)) = Suc (bit_length (n * 2 ^ k))"
    by (rule bit_length_double)
  with Suc show ?case by (simp add: mult.commute mult.left_commute)
qed

lemma bit_length_le: "n < 2 ^ k \<Longrightarrow> bit_length n \<le> k"
proof (induction k arbitrary: n)
  case 0
  then have "n \<le> 0" by simp
  then show ?case by (subst bit_length.simps) simp
next
  case (Suc k)
  show ?case
  proof (cases "0 < n")
    case True
    from Suc.prems have "n div 2 < 2 ^ k" by simp
    then have "bit_length (n div 2) \<le> k" by (rule Suc.IH)
    with True show ?thesis by (simp add: bit_length_pos)
  next
    case False
    then show ?thesis by (subst bit_length.simps) simp
  qed
qed

lemma bit_length_ge_1: "0 < n \<Longrightarrow> 1 \<le> bit_length n"
  by (simp add: bit_length_pos)

lemma round_half_even_of_int: "round_half_even (of_int z) = z"
  by (simp add: round_half_even_def)

lemma float_ulp_of_nat:
  assumes "0 < n" "n < 2 ^ 24"
  shows "float_ulp (of_nat n) * 2 ^ (24 - bit_length (int n)) = 1"
proof -
  let ?b = "bit_length (int n)"
  have b1: "1 \<le> ?b" using assms(1) bit_length_ge_1 [of "int n"] by simp
  have "int n < int (2 ^ 24)" using assms(2) by (simp only: of_nat_less_iff)
  then have "int n < 2 ^ 24" by simp
  then have b24: "?b \<le> 24" by (rule bit_length_le)
  have fl: "\<lfloor>(of_nat n :: rat) * 2 ^ 149\<rfloor> = int n * 2 ^ 149"
  proof -
    have "(of_nat n :: rat) * 2 ^ 149 = of_int (int n * 2 ^ 149)" by simp
    then show ?thesis by (simp only: floor_of_int)
  qed
  have bl: "bit_length (int n * 2 ^ 149) = ?b + 149"
    using assms(1) by (intro bit_length_shift) simp
  have "bit_length \<lfloor>(of_nat n :: rat) * 2 ^ 149\<rfloor> - 24 = ?b + 125"
    unfolding fl bl by simp
  then have u: "float_ulp (of_nat n) = 2 ^ (?b + 125) / 2 ^ 149"
    by (simp only: float_ulp_def)
  have "(2::rat) ^ (?b + 125) * 2 ^ (24 - ?b) = 2 ^ 149"
    using b24 by (simp flip: power_add)
  then show ?thesis by (simp add: u)
qed

text \<open>Integers below \<open>2 ^ 24\<close> convert to \<open>float\<close> exactly.\<close>

lemma float_of_nat_exact:
  assumes "n < 2 ^ 24"
  shows "float_of_nat n = Finite (of_nat n)"
proof (cases "n = 0")
  case True
  then show ?thesis
    by (simp add: float_of_nat_def round_float_def float_ulp_def bit_length_0
        round_half_even_def)
next
  case False
  then have pos: "0 < n" by simp
  let ?k = "24 - bit_length (int n)"
  let ?u = "float_ulp (of_nat n)"
  have u: "?u * 2 ^ ?k = 1" using pos assms by (rule float_ulp_of_nat)
  then have u0: "?u \<noteq> 0" by auto
  have "(of_nat n :: rat) / ?u = of_nat n * 2 ^ ?k"
    using u u0 by (simp add: field_simps)
  also have "\<dots> = of_int (int n * 2 ^ ?k)" by simp
  finally have q: "(of_nat n :: rat) / ?u = of_int (int n * 2 ^ ?k)" .
  have m: "of_int (round_half_even ((of_nat n :: rat) / ?u)) * ?u = of_nat n"
    unfolding q round_half_even_of_int using u by (simp add: mult.assoc mult.commute)
  have "(of_nat n :: rat) < of_nat (2 ^ 24)" using assms by (simp only: of_nat_less_iff)
  then have "(of_nat n :: rat) < 2 ^ 24" by simp
  also have "\<dots> < 2 ^ 128" by simp
  finally have small: "\<not> (2 :: rat) ^ 128 \<le> of_nat n" by simp
  show ?thesis
    unfolding float_of_nat_def round_float_def Let_def
    using m small by simp
qed

lemma round_float_of_nat: "n < 2 ^ 24 \<Longrightarrow> round_float (of_nat n) = Finite (of_nat n)"
  using float_of_nat_exact [of n] by (simp add: float_of_nat_def)

lemma round_float_250: "round_float 250 = Finite 250"
  using round_float_of_nat [of 250] by simp

lemma float_ulp_of_pos:
  assumes "0 < n"
  shows "float_ulp (of_nat n) = 2 ^ (bit_length (int n) + 149 - 24) / 2 ^ 149"
proof -
  have fl: "\<lfloor>(of_nat n :: rat) * 2 ^ 149\<rfloor> = int n * 2 ^ 149"
  proof -
    have "(of_nat n :: rat) * 2 ^ 149 = of_int (int n * 2 ^ 149)" by simp
    then show ?thesis by (simp only: floor_of_int)
  qed
  have bl: "bit_length (int n * 2 ^ 149) = bit_length (int n) + 149"
    using assms by (intro bit_length_shift) simp
  show ?thesis unfolding float_ulp_def fl bl ..
qed

lemma bit_length_16777217: "bit_length 16777217 = 25"
  by (simp add: bit_length_pos bit_length_0)

text \<open>
  \<open>2 ^ 24 + 1\<close> lies half-way between the neighbouring \<open>float\<close>s \<open>2 ^ 24\<close> and \<open>2 ^ 24 + 2\<close>, and
  rounds to the even one.
\<close>

lemma float_of_nat_16777217: "float_of_nat 16777217 = Finite 16777216"
proof -
  have "float_ulp (of_nat 16777217) = 2 ^ (bit_length (int 16777217) + 149 - 24) / 2 ^ 149"
    by (rule float_ulp_of_pos) simp
  then have u: "float_ulp 16777217 = 2"
    by (simp add: bit_length_16777217)
  have f: "\<lfloor>16777217 / 2 :: rat\<rfloor> = 8388608"
    by (rule floor_unique) simp_all
  have r: "round_half_even (16777217 / 2) = 8388608"
    by (simp add: round_half_even_def Let_def f)
  show ?thesis
    by (simp add: float_of_nat_def round_float_def Let_def u r)
qed

lemma float_to_int64_truncated:
  "truncated (Finite q) = Some t \<Longrightarrow> float_to_int64 plat (Finite q) = t"
  by (simp add: float_to_int64_def)



lemma float_to_int64_16777216: "float_to_int64 plat (Finite 16777216) = 16777216"
  by (simp add: float_to_int64_def Let_def)


section \<open>Lemmas about statements\<close>












lemma completes_run_Cons:
  "completes s w \<Longrightarrow> completes (run ss) ws \<Longrightarrow> completes (run (s # ss)) (w @ ws)"
  by (simp add: completes_def)

lemma completes_run_Nil: "completes (run []) []"
  by (simp add: completes_def)

lemma completes_run: "list_all2 completes ss ws \<Longrightarrow> completes (run ss) (concat ws)"
proof (induction ss ws rule: list_all2_induct)
  case Nil
  show ?case by (simp add: completes_def)
next
  case (Cons s ss w ws)
  then show ?case by (simp only: concat.simps completes_run_Cons)
qed

lemma completes_run_single: "completes s w \<Longrightarrow> completes (run [s]) w"
  using completes_run [of "[s]" "[w]"] by simp

lemma completes_run_pair:
  "completes s1 w1 \<Longrightarrow> completes s2 w2 \<Longrightarrow> completes (run [s1, s2]) (w1 @ w2)"
  using completes_run [of "[s1, s2]" "[w1, w2]"] by simp

lemma completes_set_opt: "\<forall>h. eng h opt val \<Longrightarrow> completes (set_opt eng opt val) [(opt, val)]"
  by (simp add: completes_def set_opt_def)

lemma completes_throw_if: "\<not> b \<Longrightarrow> completes (throw_if b e) []"
  by (simp add: completes_def throw_if_def)

lemma completes_if_then_else:
  "completes (run body1) w1 \<Longrightarrow> completes (run body2) w2 \<Longrightarrow>
   completes (if_then_else b body1 body2) (if b then w1 else w2)"
  by (simp add: completes_def if_then_else_def)

lemma completes_if_then:
  "completes (run body) w \<Longrightarrow> completes (if_then b body) (if b then w else [])"
  unfolding if_then_def by (rule completes_if_then_else [OF _ completes_run_Nil])

lemma completes_case_option:
  "completes s1 w1 \<Longrightarrow> (\<And>x. completes (s2 x) (w2 x)) \<Longrightarrow>
   completes (case opt of None \<Rightarrow> s1 | Some x \<Rightarrow> s2 x)
     (case opt of None \<Rightarrow> w1 | Some x \<Rightarrow> w2 x)"
  by (cases opt) simp_all

lemmas completes_intros =
  completes_set_opt completes_run_Nil completes_run_single
  completes_run_pair completes_if_then_else completes_if_then completes_case_option

lemma run_Cons_Threw:
  "run (s # ss) h = Threw e h' \<longleftrightarrow>
     s h = Threw e h' \<or> (\<exists>h1. s h = Returned h1 \<and> run ss h1 = Threw e h')"
  by (auto split: outcome.splits)












lemma throws_only_run: "list_all (\<lambda>s. throws_only s E) ss \<Longrightarrow> throws_only (run ss) E"
proof (induction ss)
  case Nil
  show ?case by (simp add: throws_only_def)
next
  case (Cons s ss)
  then have s: "throws_only s E" and ss: "throws_only (run ss) E" by simp_all
  show ?case
    unfolding throws_only_def
  proof (intro allI impI)
    fix h e h' assume "run (s # ss) h = Threw e h'"
    then have "s h = Threw e h' \<or> (\<exists>h1. s h = Returned h1 \<and> run ss h1 = Threw e h')"
      by (rule run_Cons_Threw [THEN iffD1])
    then consider "s h = Threw e h'" | h1 where "run ss h1 = Threw e h'"
      by blast
    then show "e \<in> E"
    proof cases
      case 1 with s show ?thesis by (auto simp add: throws_only_def)
    next
      case 2 with ss show ?thesis by (auto simp add: throws_only_def)
    qed
  qed
qed

lemma throws_only_set_opt: "LibrepoError \<in> E \<Longrightarrow> throws_only (set_opt eng opt val) E"
  by (auto simp add: throws_only_def set_opt_def split: if_splits)

lemma throws_only_if_then_else:
  "throws_only (run body1) E \<Longrightarrow> throws_only (run body2) E \<Longrightarrow>
   throws_only (if_then_else b body1 body2) E"
  by (auto simp add: throws_only_def if_then_else_def split: if_splits)

lemma throws_only_if_then: "throws_only (run body) E \<Longrightarrow> throws_only (if_then b body) E"
  unfolding if_then_def
  by (rule throws_only_if_then_else) (simp_all add: throws_only_def)

lemma throws_only_case_option:
  "throws_only s1 E \<Longrightarrow> (\<And>x. throws_only (s2 x) E) \<Longrightarrow>
   throws_only (case opt of None \<Rightarrow> s1 | Some x \<Rightarrow> s2 x) E"
  by (cases opt) simp_all

lemma throws_only_run_Nil: "throws_only (run []) E"
  by (simp add: throws_only_def)

lemma throws_only_run_single: "throws_only s E \<Longrightarrow> throws_only (run [s]) E"
  using throws_only_run [of E "[s]"] by simp

lemma throws_only_run_pair:
  "throws_only s1 E \<Longrightarrow> throws_only s2 E \<Longrightarrow> throws_only (run [s1, s2]) E"
  using throws_only_run [of E "[s1, s2]"] by simp

lemmas throws_only_intros =
  throws_only_set_opt throws_only_if_then_else throws_only_if_then
  throws_only_case_option throws_only_run_Nil throws_only_run_single throws_only_run_pair

section \<open>Lemmas about \<open>init_remote\<close>\<close>





lemma completes_init_remote:
  assumes accept: "\<forall>h opt val. eng h opt val"
    and check: "\<not> (\<not> float_eq (compute_maxspeed config) (Finite 0) \<and>
                float_less (compute_maxspeed config) (float_of_nat (minrate config)))"
  shows "completes (init_remote loc plat eng config) (concat (completed_options loc plat config))"
  unfolding init_remote_def completed_options_def Let_def format_user_pass_string_def
    if_False if_True
  apply (rule completes_run)
  apply (simp only: list_all2_Cons list_all2_Nil simp_thms)
  apply (intro conjI completes_intros completes_throw_if [OF check] allI
      accept [rule_format])
  done

text \<open>
  \<open>init_remote\<close> returns whenever the engine accepts every option and the cross-field check
  passes.
\<close>

lemma init_remote_accepting:
  assumes "\<forall>h opt val. eng h opt val"
    and "\<not> (\<not> float_eq (compute_maxspeed config) (Finite 0) \<and>
                float_less (compute_maxspeed config) (float_of_nat (minrate config)))"
  shows "init_remote loc plat eng config h = Returned (h @ concat (completed_options loc plat config))"
  using completes_init_remote [OF assms] by (simp add: completes_def)

text \<open>The first two statements of \<open>init_remote\<close>, and what the others can throw.\<close>

lemma init_remote_unfold:
  "\<exists>rest. init_remote loc plat eng config =
      run (set_opt eng LRO_USERAGENT (Str (c_str (user_agent config))) #
           throw_if (\<not> float_eq (compute_maxspeed config) (Finite 0) \<and>
                     float_less (compute_maxspeed config) (float_of_nat (minrate config)))
             RepoDownloadError #
           rest) \<and>
      throws_only (run rest) {LibrepoError}"
  unfolding init_remote_def Let_def
  apply (rule exI, rule conjI, rule refl)
  apply (rule throws_only_run)
  apply (simp only: list.pred_inject simp_thms)
  apply (intro conjI TrueI throws_only_intros insertI1 insertI2)
  done

lemma init_remote_check_fails:
  assumes "\<not> float_eq (compute_maxspeed config) (Finite 0)"
    and "float_less (compute_maxspeed config) (float_of_nat (minrate config))"
  shows "init_remote loc plat eng config h =
           (if eng h LRO_USERAGENT (Str (c_str (user_agent config)))
            then Threw RepoDownloadError (h @ [(LRO_USERAGENT, Str (c_str (user_agent config)))])
            else Threw LibrepoError h)"
proof -
  obtain rest where "init_remote loc plat eng config =
      run (set_opt eng LRO_USERAGENT (Str (c_str (user_agent config))) #
           throw_if (\<not> float_eq (compute_maxspeed config) (Finite 0) \<and>
                     float_less (compute_maxspeed config) (float_of_nat (minrate config)))
             RepoDownloadError #
           rest)"
    using init_remote_unfold by blast
  with assms show ?thesis
    by (simp add: set_opt_def throw_if_def)
qed

text \<open>
  For a \<open>minrate\<close> below \<open>2 ^ 24\<close> the conversion to \<open>float\<close> is exact, and the check compares
  the maximum speed with \<open>minrate\<close> itself.
\<close>

lemma init_remote_check_fails_exact:
  assumes "compute_maxspeed config = Finite q" and "q \<noteq> 0"
    and "q < of_nat (minrate config)" and "minrate config < 2 ^ 24"
  shows "init_remote loc plat eng config h =
           (if eng h LRO_USERAGENT (Str (c_str (user_agent config)))
            then Threw RepoDownloadError (h @ [(LRO_USERAGENT, Str (c_str (user_agent config)))])
            else Threw LibrepoError h)"
proof (rule init_remote_check_fails)
  show "\<not> float_eq (compute_maxspeed config) (Finite 0)"
    using assms(1,2) by simp
  show "float_less (compute_maxspeed config) (float_of_nat (minrate config))"
    using assms(1,3) by (simp add: float_of_nat_exact [OF assms(4)])
qed

lemma option_values_simps:
  "option_values opt [] = []"
  "option_values opt ((opt', val) # h) =
     (if opt' = opt then val # option_values opt h else option_values opt h)"
  "option_values opt (h1 @ h2) = option_values opt h1 @ option_values opt h2"
  by (simp_all add: option_values_def)

lemma option_values_if:
  "option_values opt (if b then h1 else h2) =
     (if b then option_values opt h1 else option_values opt h2)"
  by simp

lemma option_values_case_option:
  "option_values opt (case x of None \<Rightarrow> h1 | Some y \<Rightarrow> h2 y)
     = (case x of None \<Rightarrow> option_values opt h1 | Some y \<Rightarrow> option_values opt (h2 y))"
  by (cases x) simp_all

lemmas option_values_eval = option_values_simps option_values_if option_values_case_option

lemma lowspeedlimit_values:
  "option_values LRO_LOWSPEEDLIMIT (concat (completed_options loc plat config)) =
     [Num (int (minrate config))]"
  by (simp add: completed_options_def option_values_eval split: option.splits)










subsection \<open>The concrete inputs\<close>

lemma float_of_nat_1000: "float_of_nat 1000 = Finite 1000"
  by (simp add: float_of_nat_exact)





lemma rejected_fields:
  "user_agent rejected_config = ''libdnf''" "minrate rejected_config = 1000"
  "throttle rejected_config = Finite 2" "bandwidth rejected_config = 500"
  by (simp_all add: rejected_config_def)

lemma fraction_fields:
  "user_agent fraction_config = ''libdnf''" "minrate fraction_config = 1000"
  "throttle fraction_config = Finite (1 / 2)" "bandwidth fraction_config = 500"
  by (simp_all add: fraction_config_def)


lemma rounding_fields:
  "user_agent rounding_config = ''libdnf''"
  "minrate rounding_config = 16777217"
  "throttle rounding_config = Finite 16777216"
  "bandwidth rounding_config = 0"
  "timeout rounding_config = 30"
  "ip_resolve rounding_config = ''whatever''"
  "username rounding_config = []"
  "password rounding_config = []"
  "sslcacert rounding_config = []"
  "sslclientcert rounding_config = []"
  "sslclientkey rounding_config = []"
  "sslverify rounding_config = True"
  "proxy rounding_config = None"
  "proxy_auth_method rounding_config = ''any''"
  "proxy_username rounding_config = None"
  "proxy_password rounding_config = []"
  "proxy_sslcacert rounding_config = []"
  "proxy_sslclientcert rounding_config = []"
  "proxy_sslclientkey rounding_config = []"
  "proxy_sslverify rounding_config = True"
  by (simp_all add: rounding_config_def)



lemma compute_maxspeed_rejected: "compute_maxspeed rejected_config = Finite 2"
  by (simp add: compute_maxspeed_def rejected_fields float_le_def)

lemma compute_maxspeed_fraction: "compute_maxspeed fraction_config = Finite 250"
  by (simp add: compute_maxspeed_def fraction_fields float_le_def float_of_nat_exact
      round_float_250)


lemma compute_maxspeed_rounding: "compute_maxspeed rounding_config = Finite 16777216"
  by (simp add: compute_maxspeed_def rounding_fields float_le_def)


lemma rejected_throws:
  "init_remote c_locale x86_64 accept_all rejected_config [] =
     Threw RepoDownloadError [(LRO_USERAGENT, Str ''libdnf'')]"
proof -
  obtain rest where "init_remote c_locale x86_64 accept_all rejected_config =
      run (set_opt accept_all LRO_USERAGENT (Str (c_str (user_agent rejected_config))) #
           throw_if (\<not> float_eq (compute_maxspeed rejected_config) (Finite 0) \<and>
                     float_less (compute_maxspeed rejected_config)
                       (float_of_nat (minrate rejected_config)))
             RepoDownloadError #
           rest)"
    using init_remote_unfold by blast
  then show ?thesis
    by (simp add: set_opt_def throw_if_def accept_all_def rejected_fields
        compute_maxspeed_rejected float_of_nat_1000 c_str_def)
qed


text \<open>An engine that rejects the user agent: \<open>set_opt\<close> throws before the check is reached.\<close>

lemma fraction_rejected_by_engine:
  "init_remote c_locale x86_64 reject_all fraction_config [] = Threw LibrepoError []"
proof -
  have "init_remote c_locale x86_64 reject_all fraction_config [] =
      (if reject_all [] LRO_USERAGENT (Str (c_str (user_agent fraction_config)))
       then Threw RepoDownloadError
              ([] @ [(LRO_USERAGENT, Str (c_str (user_agent fraction_config)))])
       else Threw LibrepoError [])"
    by (rule init_remote_check_fails)
      (simp_all add: compute_maxspeed_fraction fraction_fields float_of_nat_exact)
  then show ?thesis
    by (simp add: reject_all_def)
qed

text \<open>
  \<open>minrate = 2 ^ 24 + 1\<close> converts to the \<open>float\<close> \<open>2 ^ 24\<close>, the maximum speed: the check
  passes, and both options are written.
\<close>

lemma rounding_returns:
  "init_remote c_locale x86_64 accept_all rounding_config [] = Returned rounding_session"
proof -
  have "init_remote c_locale x86_64 accept_all rounding_config [] =
      Returned ([] @ concat (completed_options c_locale x86_64 rounding_config))"
    by (rule init_remote_accepting)
      (simp_all add: accept_all_def compute_maxspeed_rounding rounding_fields
        float_of_nat_16777217)
  then show ?thesis
    by (simp add: completed_options_def compute_maxspeed_rounding rounding_fields
        PROXYAUTHMETHODS_def bool_long_def c_str_def float_to_int64_16777216
        rounding_session_def)
qed




subsection \<open>The scenarios of the specification\<close>

lemma scenario_encode_hello: "url_encode c_locale ''hello'' = ''hello''"
  by code_simp

lemma scenario_encode_utf8: "url_encode c_locale [CHR 0xCF, CHR 0x80] = ''%cf%80''"
  by code_simp

lemma scenario_join:
  "format_user_pass_string c_locale ''alice'' ''p@ss'' False = ''alice:p@ss''"
  "format_user_pass_string c_locale ''alice'' ''p@ss'' True = ''alice:p%40ss''"
  by code_simp+

lemma scenario_kerberos: "find_auth PROXYAUTHMETHODS ''kerberos'' LR_AUTH_ANY = LR_AUTH_ANY"
  by (simp add: PROXYAUTHMETHODS_def)

section \<open>The claims about \<open>init_remote\<close>\<close>

text \<open>
  Claim C1, as stated, fails, in two ways. The check does not compare the maximum speed
  with \<open>minrate\<close> but with \<open>minrate\<close> converted to \<open>float\<close>: with \<open>minrate = 16777217\<close> and a throttle
  of \<open>16777216\<close> the maximum speed is nonzero and less than \<open>minrate\<close>, yet \<open>minrate\<close> converts to
  \<open>16777216\<close>, the check passes, \<open>init_remote\<close> returns, and both options have been written. And
  a configuration that fails the check does not always get \<open>RepoDownloadError\<close>: when the
  engine rejects the user agent, which is set before the check, \<open>set_opt\<close> throws
  \<open>LibrepoError\<close>.
\<close>

theorem maxspeed_below_minrate_counterexample:
  "compute_maxspeed rounding_config = Finite 16777216 \<and>
   minrate rounding_config = 16777217 \<and>
   (16777216 :: rat) \<noteq> 0 \<and>
   (16777216 :: rat) < of_nat (minrate rounding_config) \<and>
   float_of_nat (minrate rounding_config) = Finite 16777216 \<and>
   init_remote c_locale x86_64 accept_all rounding_config [] = Returned rounding_session \<and>
   option_values LRO_LOWSPEEDLIMIT rounding_session = [Num 16777217] \<and>
   option_values LRO_MAXSPEED rounding_session = [Num 16777216] \<and>
   compute_maxspeed fraction_config = Finite 250 \<and>
   minrate fraction_config = 1000 \<and>
   init_remote c_locale x86_64 reject_all fraction_config [] = Threw LibrepoError []"
  using compute_maxspeed_rounding rounding_returns compute_maxspeed_fraction
    fraction_rejected_by_engine float_of_nat_16777217
  by (simp add: rounding_fields fraction_fields rounding_session_def option_values_simps)

text \<open>
  Claim C1, amended. For every configuration whose computed maximum speed is nonzero and
  less than \<open>minrate\<close> converted to \<open>float\<close> (which is \<open>minrate\<close> itself whenever
  \<open>minrate < 2 ^ 24\<close>), \<open>init_remote\<close> throws: \<open>RepoDownloadError\<close> once the engine has accepted
  the user agent, the one option set before the check, and the \<open>LibrepoError\<close> of \<open>set_opt\<close> if
  the engine rejects it. The check comes before the low-speed limit and the maximum speed
  are written: in either case the session has received neither of the two options.
\<close>

theorem init_remote_maxspeed_below_minrate:
  assumes "\<not> float_eq (compute_maxspeed config) (Finite 0)"
    and "float_less (compute_maxspeed config) (float_of_nat (minrate config))"
  shows "init_remote loc plat eng config h =
           (if eng h LRO_USERAGENT (Str (c_str (user_agent config)))
            then Threw RepoDownloadError (h @ [(LRO_USERAGENT, Str (c_str (user_agent config)))])
            else Threw LibrepoError h) \<and>
         (\<exists>e w. init_remote loc plat eng config h = Threw e (h @ w) \<and>
            option_values LRO_LOWSPEEDLIMIT w = [] \<and> option_values LRO_MAXSPEED w = []) \<and>
         (minrate config < 2 ^ 24 \<longrightarrow>
            float_of_nat (minrate config) = Finite (of_nat (minrate config)))"
proof -
  from assms have eq: "init_remote loc plat eng config h =
           (if eng h LRO_USERAGENT (Str (c_str (user_agent config)))
            then Threw RepoDownloadError (h @ [(LRO_USERAGENT, Str (c_str (user_agent config)))])
            else Threw LibrepoError h)"
    by (rule init_remote_check_fails)
  have ex: "\<exists>e w. init_remote loc plat eng config h = Threw e (h @ w) \<and>
            option_values LRO_LOWSPEEDLIMIT w = [] \<and> option_values LRO_MAXSPEED w = []"
  proof (cases "eng h LRO_USERAGENT (Str (c_str (user_agent config)))")
    case True
    with eq have "init_remote loc plat eng config h =
        Threw RepoDownloadError (h @ [(LRO_USERAGENT, Str (c_str (user_agent config)))])"
      by simp
    moreover have
      "option_values LRO_LOWSPEEDLIMIT [(LRO_USERAGENT, Str (c_str (user_agent config)))] = []"
      "option_values LRO_MAXSPEED [(LRO_USERAGENT, Str (c_str (user_agent config)))] = []"
      by (simp_all add: option_values_simps)
    ultimately show ?thesis by blast
  next
    case False
    with eq have "init_remote loc plat eng config h = Threw LibrepoError (h @ [])" by simp
    moreover have "option_values LRO_LOWSPEEDLIMIT [] = []" "option_values LRO_MAXSPEED [] = []"
      by (simp_all add: option_values_simps)
    ultimately show ?thesis by blast
  qed
  have "minrate config < 2 ^ 24 \<longrightarrow>
      float_of_nat (minrate config) = Finite (of_nat (minrate config))"
    by (simp add: float_of_nat_exact)
  with eq ex show ?thesis by (intro conjI)
qed

theorem init_remote_maxspeed_below_minrate_witness:
  "compute_maxspeed fraction_config = Finite 250 \<and>
   \<not> float_eq (compute_maxspeed fraction_config) (Finite 0) \<and>
   float_less (compute_maxspeed fraction_config) (float_of_nat (minrate fraction_config)) \<and>
   minrate fraction_config < 2 ^ 24 \<and>
   float_of_nat (minrate fraction_config) = Finite 1000 \<and>
   init_remote c_locale x86_64 accept_all fraction_config [] =
     Threw RepoDownloadError [(LRO_USERAGENT, Str ''libdnf'')] \<and>
   option_values LRO_LOWSPEEDLIMIT [(LRO_USERAGENT, Str ''libdnf'')] = [] \<and>
   option_values LRO_MAXSPEED [(LRO_USERAGENT, Str ''libdnf'')] = []"
proof -
  have a: "\<not> float_eq (compute_maxspeed fraction_config) (Finite 0)"
    by (simp add: compute_maxspeed_fraction)
  have b: "float_less (compute_maxspeed fraction_config) (float_of_nat (minrate fraction_config))"
    by (simp add: compute_maxspeed_fraction fraction_fields float_of_nat_exact)
  have c: "minrate fraction_config < 2 ^ 24"
    by (simp add: fraction_fields)
  note t = init_remote_maxspeed_below_minrate [OF a b, where loc = c_locale and plat = x86_64 and
      eng = accept_all and h = "[]"]
  from t have "init_remote c_locale x86_64 accept_all fraction_config [] =
      Threw RepoDownloadError [(LRO_USERAGENT, Str ''libdnf'')]"
    by (simp add: accept_all_def fraction_fields c_str_def)
  moreover from t c have "float_of_nat (minrate fraction_config) = Finite 1000"
    by (simp add: fraction_fields)
  ultimately show ?thesis
    using a b c compute_maxspeed_fraction by (simp add: option_values_simps)
qed

text \<open>
  Claim C9. \<open>init_remote\<close> is not atomic on the cross-field failure: whenever it throws
  \<open>RepoDownloadError\<close>, the session has already received the user-agent option, and nothing
  else.
\<close>

theorem init_remote_not_atomic:
  assumes "init_remote loc plat eng config h = Threw RepoDownloadError h'"
  shows "h' = h @ [(LRO_USERAGENT, Str (c_str (user_agent config)))] \<and> h' \<noteq> h"
proof -
  obtain rest where unf: "init_remote loc plat eng config =
      run (set_opt eng LRO_USERAGENT (Str (c_str (user_agent config))) #
           throw_if (\<not> float_eq (compute_maxspeed config) (Finite 0) \<and>
                     float_less (compute_maxspeed config) (float_of_nat (minrate config)))
             RepoDownloadError #
           rest)"
    and rest: "throws_only (run rest) {LibrepoError}"
    using init_remote_unfold by blast
  from rest have "\<And>h1 h2. run rest h1 \<noteq> Threw RepoDownloadError h2"
    by (auto simp add: throws_only_def)
  with assms unf show ?thesis
    by (auto simp only: run_Cons_Threw set_opt_def throw_if_def split: if_splits)
qed

theorem init_remote_not_atomic_witness:
  "init_remote c_locale x86_64 accept_all rejected_config [] =
     Threw RepoDownloadError [(LRO_USERAGENT, Str ''libdnf'')] \<and>
   [(LRO_USERAGENT, Str ''libdnf'')] =
     [] @ [(LRO_USERAGENT, Str (c_str (user_agent rejected_config)))] \<and>
   [(LRO_USERAGENT, Str ''libdnf'')] \<noteq> []"
  using rejected_throws init_remote_not_atomic [OF rejected_throws] by simp










section \<open>The claim about the resource wrappers\<close>

text \<open>When the two objects differ, the old pointer is freed and the source becomes null.\<close>

lemma LibrepoResult_move_assign_distinct:
  "self \<noteq> other \<Longrightarrow>
   result_at (LibrepoResult_move_assign self other m) self = result_at m other \<and>
   result_at (LibrepoResult_move_assign self other m) other = None \<and>
   lr_result_free_calls (LibrepoResult_move_assign self other m) =
     lr_result_free_calls m @ [result_at m self]"
  by (simp add: LibrepoResult_move_assign_def lr_result_free_def Let_def)

lemma LibrepoHandle_move_assign_distinct:
  "self \<noteq> other \<Longrightarrow>
   handle_at (LibrepoHandle_move_assign self other m) self = handle_at m other \<and>
   handle_at (LibrepoHandle_move_assign self other m) other = None \<and>
   lr_handle_free_calls (LibrepoHandle_move_assign self other m) =
     lr_handle_free_calls m @ [handle_at m self]"
  by (simp add: LibrepoHandle_move_assign_def lr_handle_free_def Let_def)

text \<open>
  Claim C10. Move-assigning a \<open>LibrepoResult\<close> or a \<open>LibrepoHandle\<close> to itself changes
  nothing: the object keeps its pointer and no free function of the engine is called.
\<close>

theorem self_move_assign:
  "LibrepoResult_move_assign a a m = m \<and>
   result_at (LibrepoResult_move_assign a a m) a = result_at m a \<and>
   lr_result_free_calls (LibrepoResult_move_assign a a m) = lr_result_free_calls m \<and>
   lr_handle_free_calls (LibrepoResult_move_assign a a m) = lr_handle_free_calls m \<and>
   LibrepoHandle_move_assign a a m = m \<and>
   handle_at (LibrepoHandle_move_assign a a m) a = handle_at m a \<and>
   lr_handle_free_calls (LibrepoHandle_move_assign a a m) = lr_handle_free_calls m \<and>
   lr_result_free_calls (LibrepoHandle_move_assign a a m) = lr_result_free_calls m"
  by (simp add: LibrepoResult_move_assign_def LibrepoHandle_move_assign_def)

end
